theory Spec2Isabelle
  imports Complex_Main "HOL-Library.Multiset" "HOL-Library.Word"
begin

section \<open>Data model\<close>

text \<open>
  The program is \<^verbatim>\<open>src/client/dual_client.py\<close>: a Flower client that trains a model,
  then acts as a socket server for its own children and averages their parameters with
  its own (\<^verbatim>\<open>agg\<close>).

  A numpy array is its shape together with its elements in row-major order. The
  elements are floating-point numbers in the program; here they are real numbers, so
  rounding is not modelled and equalities that hold up to rounding in the program
  are exact in the model.
\<close>

record 'a ndarray =
  shape :: "nat list"
  elems :: "'a list"

text \<open>A numpy array always holds as many elements as its shape says.\<close>

definition wf_array :: "'a ndarray \<Rightarrow> bool" where
  "wf_array a = (length (elems a) = prod_list (shape a))"

text \<open>
  A parameter set is what \<^verbatim>\<open>get_parameters\<close> returns: the list of the arrays of
  \<^verbatim>\<open>net.state_dict()\<close>, in key order.
\<close>

type_synonym parameter_set = "real ndarray list"

definition wf_params :: "parameter_set \<Rightarrow> bool" where
  "wf_params p = list_all wf_array p"

text \<open>The shape signature of a parameter set: the shapes of its arrays, in order.\<close>

definition signature :: "parameter_set \<Rightarrow> nat list list" where
  "signature p = map shape p"

text \<open>
  Exceptions are values. \<open>EmptyMean\<close> and \<open>Blocked\<close> are not Python exceptions:
  \<open>EmptyMean\<close> stands for numpy's NaN result of a mean over no element (the reals have
  no NaN), \<open>Blocked\<close> for a socket call that never returns.
\<close>

datatype error =
    IndexError | ValueError | TypeError | RuntimeError | ZeroDivisionError | AxisError
  | EmptyMean | Blocked

section \<open>Aggregation: \<^verbatim>\<open>agg\<close>\<close>

text \<open>\<^verbatim>\<open>xs[i]\<close> for a list and an index that is not negative.\<close>

definition py_index :: "'a list \<Rightarrow> nat \<Rightarrow> error + 'a" where
  "py_index xs i = (if i < length xs then Inr (xs ! i) else Inl IndexError)"

text \<open>
  \<^verbatim>\<open>np.array(ts)\<close> for a list of arrays: the arrays stacked along a new first axis.
  Arrays of different shapes make an inhomogeneous sequence, which numpy refuses
  with a ValueError (numpy 1.24 and later; earlier versions warned and built an array
  of objects).
\<close>

definition np_array :: "'a ndarray list \<Rightarrow> error + 'a ndarray" where
  "np_array ts =
     (case ts of
        [] \<Rightarrow> Inr \<lparr>shape = [0], elems = []\<rparr>
      | t # rest \<Rightarrow>
          if list_all (\<lambda>u. shape u = shape t) rest
          then Inr \<lparr>shape = length ts # shape t, elems = concat (map elems ts)\<rparr>
          else Inl ValueError)"

text \<open>
  \<^verbatim>\<open>np.mean(a, axis=0)\<close>: for an array of shape \<open>m # s\<close>, the array of shape \<open>s\<close>
  whose element \<open>k\<close> is the sum of the elements \<open>j * size s + k\<close>, \<open>j < m\<close>, divided
  by \<open>m\<close>.
\<close>

definition np_mean_axis0 :: "real ndarray \<Rightarrow> error + real ndarray" where
  "np_mean_axis0 a =
     (case shape a of
        [] \<Rightarrow> Inl AxisError
      | m # s \<Rightarrow>
          if m = 0 then Inl EmptyMean
          else Inr \<lparr>shape = s,
                    elems = map (\<lambda>k. (\<Sum>j\<leftarrow>[0..<m]. elems a ! (j * prod_list s + k)) / real m)
                              [0..<prod_list s]\<rparr>)"

text \<open>
  The comprehension \<^verbatim>\<open>[param_list[j][i] for j in range(len(param_list))]\<close>: the
  array at position \<open>i\<close> of every set, an IndexError at the first set that has none.
\<close>

fun column :: "parameter_set list \<Rightarrow> nat \<Rightarrow> error + real ndarray list" where
  "column [] i = Inr []"
| "column (p # ps) i =
     (case py_index p i of
        Inl e \<Rightarrow> Inl e
      | Inr t \<Rightarrow> (case column ps i of Inl e \<Rightarrow> Inl e | Inr ts \<Rightarrow> Inr (t # ts)))"

text \<open>
  The loop of \<^verbatim>\<open>agg\<close> over the positions \<open>is\<close> still to visit, \<open>final_params\<close>
  being the list built so far.
\<close>

fun agg_loop :: "parameter_set list \<Rightarrow> nat list \<Rightarrow> parameter_set \<Rightarrow> error + parameter_set" where
  "agg_loop param_list [] final_params = Inr final_params"
| "agg_loop param_list (i # is) final_params =
     (case column param_list i of
        Inl e \<Rightarrow> Inl e
      | Inr col \<Rightarrow>
          (case np_array col of
             Inl e \<Rightarrow> Inl e
           | Inr a \<Rightarrow>
               (case np_mean_axis0 a of
                  Inl e \<Rightarrow> Inl e
                | Inr m \<Rightarrow> agg_loop param_list is (final_params @ [m]))))"

text \<open>
  \<^verbatim>\<open>agg(param_list)\<close>. The positions visited are those of \<^verbatim>\<open>param_list[0]\<close>, which
  raises an IndexError on the empty list.
\<close>

definition agg :: "parameter_set list \<Rightarrow> error + parameter_set" where
  "agg param_list =
     (case py_index param_list 0 of
        Inl e \<Rightarrow> Inl e
      | Inr p0 \<Rightarrow> agg_loop param_list [0..<length p0] [])"

subsection \<open>The mean, as the specification words it\<close>

text \<open>
  The specification's unweighted mode: the array at each position is the elementwise
  arithmetic mean, over all sets, of the arrays at that position. \<open>elementwise_mean\<close>
  is the mean of a list of arrays of one shape, \<open>positionwise_mean\<close> applies it at
  every position of the first set. \<open>stack_mean\<close> is what \<^verbatim>\<open>np.mean(np.array(ts), axis=0)\<close>
  computes on arrays of one shape, read off the stacked array.
\<close>

definition elementwise_mean :: "real ndarray list \<Rightarrow> real ndarray" where
  "elementwise_mean ts =
     \<lparr>shape = shape (hd ts),
      elems = map (\<lambda>k. (\<Sum>t\<leftarrow>ts. elems t ! k) / real (length ts))
                [0..<prod_list (shape (hd ts))]\<rparr>"

definition positionwise_mean :: "parameter_set list \<Rightarrow> parameter_set" where
  "positionwise_mean sets =
     map (\<lambda>i. elementwise_mean (map (\<lambda>p. p ! i) sets)) [0..<length (hd sets)]"

definition stack_mean :: "real ndarray list \<Rightarrow> real ndarray" where
  "stack_mean ts =
     \<lparr>shape = shape (hd ts),
      elems = map (\<lambda>k. (\<Sum>j\<leftarrow>[0..<length ts].
                            concat (map elems ts) ! (j * prod_list (shape (hd ts)) + k))
                         / real (length ts))
                [0..<prod_list (shape (hd ts))]\<rparr>"

text \<open>
  Position \<open>i\<close> is one at which every set has an array, of the shape of the first
  set's array there.
\<close>

definition agrees_at :: "parameter_set list \<Rightarrow> nat \<Rightarrow> bool" where
  "agrees_at sets i = list_all (\<lambda>p. i < length p \<and> shape (p ! i) = shape (hd sets ! i)) sets"

section \<open>The client process\<close>

text \<open>
  The module keeps the model \<^verbatim>\<open>net\<close> and the data loaders as globals; the client object
  holds \<^verbatim>\<open>num_clients\<close> and a bound server socket. The state of the process is the
  model's arrays, the number of children still to connect to the socket, and a log of
  the calls that act outside the function: socket calls, passes over the training and
  test data, and calls of \<^verbatim>\<open>agg\<close>.
\<close>

datatype event = Listen int | Accept | Close | TrainEpoch | TestRun | Aggregate

record world =
  net :: parameter_set
  waiting :: nat
  events :: "event list"

text \<open>
  What the process does not change: the sizes of the two datasets
  (\<^verbatim>\<open>len(trainloader.dataset)\<close>, \<^verbatim>\<open>len(testloader.dataset)\<close>), the effect of one pass of
  SGD over \<^verbatim>\<open>trainloader\<close> on the optimizer's momentum buffers and the model's arrays,
  and, for the model's arrays, the loss and the number of correct predictions on each
  batch of \<^verbatim>\<open>testloader\<close>. The network and the data are not modelled further.
\<close>

record env =
  train_len :: nat
  test_len :: nat
  train_epoch :: "parameter_set \<times> parameter_set \<Rightarrow> parameter_set \<times> parameter_set"
  test_outcomes :: "parameter_set \<Rightarrow> (real \<times> nat) list"

record flower_client =
  num_clients :: int
  port :: int

type_synonym config = "(string \<times> int) list"
type_synonym metrics = "(string \<times> real) list"

subsection \<open>\<^verbatim>\<open>train\<close> and \<^verbatim>\<open>test\<close>\<close>

text \<open>
  \<^verbatim>\<open>train(net, trainloader, epochs)\<close>: a fresh optimizer (no momentum buffer yet), then
  \<^verbatim>\<open>for _ in range(epochs)\<close> one pass over the training data.
\<close>

fun train_epochs :: "env \<Rightarrow> nat \<Rightarrow> parameter_set \<times> world \<Rightarrow> parameter_set \<times> world" where
  "train_epochs E 0 (optimizer, w) = (optimizer, w)"
| "train_epochs E (Suc n) (optimizer, w) =
     (case train_epoch E (optimizer, net w) of
        (optimizer', ps) \<Rightarrow>
          train_epochs E n (optimizer', w\<lparr>net := ps, events := events w @ [TrainEpoch]\<rparr>))"

definition train :: "env \<Rightarrow> int \<Rightarrow> world \<Rightarrow> world" where
  "train E epochs w = snd (train_epochs E (nat epochs) ([], w))"

text \<open>
  \<^verbatim>\<open>test(net, testloader)\<close>: the losses and the correct predictions summed over the
  batches, then \<^verbatim>\<open>accuracy = correct / len(testloader.dataset)\<close>, a ZeroDivisionError on
  an empty dataset.
\<close>

definition test :: "env \<Rightarrow> world \<Rightarrow> (error + real \<times> real) \<times> world" where
  "test E w =
     (let (loss, correct) =
            fold (\<lambda>(l, c) (loss, correct). (loss + l, correct + c))
              (test_outcomes E (net w)) (0, 0);
          w' = w\<lparr>events := events w @ [TestRun]\<rparr>
      in if test_len E = 0 then (Inl ZeroDivisionError, w')
         else (Inr (loss, real correct / real (test_len E)), w'))"

subsection \<open>\<^verbatim>\<open>get_parameters\<close> and \<^verbatim>\<open>set_parameters\<close>\<close>

definition get_parameters :: "world \<Rightarrow> parameter_set" where
  "get_parameters w = net w"

text \<open>
  \<^verbatim>\<open>net.load_state_dict(state_dict, strict=True)\<close>, the dictionary being
  \<^verbatim>\<open>zip(net.state_dict().keys(), parameters)\<close>: the keys are the positions of the model's
  arrays, and the zip stops at the shorter list. An array of the expected shape is
  copied into the model; an array of another shape, or a key with no array, is an
  error, reported by a RuntimeError once all keys have been visited. The first
  component is whether no error was met.
\<close>

fun load_state_dict :: "parameter_set \<Rightarrow> parameter_set \<Rightarrow> bool \<times> parameter_set" where
  "load_state_dict [] vs = (True, [])"
| "load_state_dict (c # cs) [] = (False, c # cs)"
| "load_state_dict (c # cs) (v # vs) =
     (case load_state_dict cs vs of
        (ok, rest) \<Rightarrow> if shape v = shape c then (ok, v # rest) else (False, c # rest))"

definition set_parameters :: "parameter_set \<Rightarrow> world \<Rightarrow> (error + unit) \<times> world" where
  "set_parameters parameters w =
     (case load_state_dict (net w) parameters of
        (ok, new) \<Rightarrow> (if ok then Inr () else Inl RuntimeError, w\<lparr>net := new\<rparr>))"

subsection \<open>The server socket\<close>

text \<open>
  \<^verbatim>\<open>listen\<close> returns at once. \<^verbatim>\<open>accept\<close> returns when a child connects and never
  returns when none is left to connect. \<^verbatim>\<open>conn.recv()\<close> is called with no buffer size,
  which \<^verbatim>\<open>socket.recv\<close> requires: it raises a TypeError and yields nothing; what it
  would yield is appended to \<^verbatim>\<open>recv_params\<close> as it is and used as a parameter set.
\<close>

definition listen :: "int \<Rightarrow> world \<Rightarrow> world" where
  "listen backlog w = w\<lparr>events := events w @ [Listen backlog]\<rparr>"

definition accept :: "world \<Rightarrow> (error + unit) \<times> world" where
  "accept w =
     (if waiting w = 0 then (Inl Blocked, w)
      else (Inr (), w\<lparr>waiting := waiting w - 1, events := events w @ [Accept]\<rparr>))"

definition conn_recv :: "error + parameter_set" where
  "conn_recv = Inl TypeError"

definition conn_close :: "world \<Rightarrow> world" where
  "conn_close w = w\<lparr>events := events w @ [Close]\<rparr>"

subsection \<open>\<^verbatim>\<open>FlowerClient.fit\<close> and \<^verbatim>\<open>FlowerClient.evaluate\<close>\<close>

text \<open>\<^verbatim>\<open>len(n)\<close> for an \<^verbatim>\<open>int\<close>: a TypeError, an integer has no length.\<close>

definition len_int :: "int \<Rightarrow> error + nat" where
  "len_int n = Inl TypeError"

text \<open>The body of \<^verbatim>\<open>for i in range(n)\<close> in \<^verbatim>\<open>fit\<close>, \<open>n\<close> iterations being left.\<close>

fun collect_loop :: "nat \<Rightarrow> parameter_set list \<Rightarrow> world \<Rightarrow> (error + parameter_set list) \<times> world" where
  "collect_loop 0 recv_params w = (Inr recv_params, w)"
| "collect_loop (Suc n) recv_params w =
     (case accept w of
        (Inl e, w1) \<Rightarrow> (Inl e, w1)
      | (Inr conn, w1) \<Rightarrow>
          (case conn_recv of
             Inl e \<Rightarrow> (Inl e, w1)
           | Inr client_agg_param \<Rightarrow>
               collect_loop n (recv_params @ [client_agg_param]) (conn_close w1)))"

text \<open>
  The end of \<^verbatim>\<open>fit\<close>, from \<^verbatim>\<open>recv_params.append(self.get_parameters(config={}))\<close> to
  the \<^verbatim>\<open>return\<close>: the node's own arrays join the received ones, the aggregate is set
  on the model, and the model's arrays are returned with \<^verbatim>\<open>len(trainloader.dataset)\<close>
  and no metrics.
\<close>

definition fit_report ::
  "env \<Rightarrow> parameter_set list \<Rightarrow> world \<Rightarrow> (error + parameter_set \<times> nat \<times> metrics) \<times> world" where
  "fit_report E recv_params w =
     (let recv_params' = recv_params @ [get_parameters w];
          w1 = w\<lparr>events := events w @ [Aggregate]\<rparr>
      in case agg recv_params' of
           Inl e \<Rightarrow> (Inl e, w1)
         | Inr new_params \<Rightarrow>
             (case set_parameters new_params w1 of
                (Inl e, w2) \<Rightarrow> (Inl e, w2)
              | (Inr u, w2) \<Rightarrow> (Inr (get_parameters w2, train_len E, []), w2)))"

text \<open>
  \<^verbatim>\<open>fit(self, parameters, config)\<close>. The training call is \<^verbatim>\<open>train(net, trainloader, epochs=1)\<close>;
  \<^verbatim>\<open>config\<close> is not read. The bound of the loop is \<^verbatim>\<open>len(self.num_clients)\<close>.
\<close>

definition fit ::
  "env \<Rightarrow> flower_client \<Rightarrow> parameter_set \<Rightarrow> config \<Rightarrow> world
     \<Rightarrow> (error + parameter_set \<times> nat \<times> metrics) \<times> world" where
  "fit E self parameters config w =
     (case set_parameters parameters w of
        (Inl e, w1) \<Rightarrow> (Inl e, w1)
      | (Inr u, w1) \<Rightarrow>
          (let w2 = train E 1 w1;
               w3 = listen (num_clients self) w2
           in case len_int (num_clients self) of
                Inl e \<Rightarrow> (Inl e, w3)
              | Inr n \<Rightarrow>
                  (case collect_loop n [] w3 of
                     (Inl e, w4) \<Rightarrow> (Inl e, w4)
                   | (Inr recv_params, w4) \<Rightarrow> fit_report E recv_params w4)))"

text \<open>\<^verbatim>\<open>evaluate(self, parameters, config)\<close>.\<close>

definition evaluate ::
  "env \<Rightarrow> flower_client \<Rightarrow> parameter_set \<Rightarrow> config \<Rightarrow> world
     \<Rightarrow> (error + real \<times> nat \<times> metrics) \<times> world" where
  "evaluate E self parameters config w =
     (case set_parameters parameters w of
        (Inl e, w1) \<Rightarrow> (Inl e, w1)
      | (Inr u, w1) \<Rightarrow>
          (case test E w1 of
             (Inl e, w2) \<Rightarrow> (Inl e, w2)
           | (Inr (loss, accuracy), w2) \<Rightarrow>
               (Inr (loss, test_len E, [(''accuracy'', accuracy)]), w2)))"

subsection \<open>Parameters the model accepts, and a small instance\<close>

text \<open>
  \<^verbatim>\<open>set_parameters\<close> succeeds on parameters that give every array of the model an array
  of its shape; arrays beyond the model's are dropped by the zip.
\<close>

definition fits_model :: "parameter_set \<Rightarrow> world \<Rightarrow> bool" where
  "fits_model parameters w =
     (length (net w) \<le> length parameters
      \<and> signature (take (length (net w)) parameters) = signature (net w))"

text \<open>
  An instance to evaluate the functions on: a model of one array of two numbers, a pass
  of training that adds 1 to every number, a test set of 10 samples in two batches.
\<close>

definition example_env :: env where
  "example_env =
     \<lparr>train_len = 40, test_len = 10,
      train_epoch = (\<lambda>(optimizer, ps).
         (optimizer, map (\<lambda>t. t\<lparr>elems := map (\<lambda>x. x + 1) (elems t)\<rparr>) ps)),
      test_outcomes = (\<lambda>ps. [(1 / 2, 3), (1 / 4, 4)])\<rparr>"

definition example_world :: world where
  "example_world = \<lparr>net = [\<lparr>shape = [2], elems = [0, 0]\<rparr>], waiting = 0, events = []\<rparr>"

definition example_params :: parameter_set where
  "example_params = [\<lparr>shape = [2], elems = [1, 2]\<rparr>]"

section \<open>The transport codec\<close>

text \<open>
  Modelled from the spec: the transport codec, \<^verbatim>\<open>encode\<close> and \<^verbatim>\<open>decode\<close>. The source has
  none: \<^verbatim>\<open>fit\<close> appends what \<^verbatim>\<open>conn.recv()\<close> yields as it is, and the sending side is
  not in the file. The specification asks for a self-delimiting frame: a fixed-width
  length prefix followed by the serialised sequence, that is the number of arrays, then
  for each array its shape and its elements in a fixed numeric width. Here every
  number is 8 bytes, most significant byte first; an element is the 64 bits of its
  float; a shape is written as its rank followed by its dimensions.
\<close>

type_synonym byte = "8 word"
type_synonym wire_params = "64 word ndarray list"

text \<open>Modelled from the spec: the error of \<^verbatim>\<open>decode\<close>.\<close>

datatype codec_error = MalformedFrameError

text \<open>
  Modelled from the spec: the fixed numeric width. \<open>nat_to_bytes k n\<close> is the number
  \<open>n\<close> on \<open>k\<close> bytes (modulo \<open>256 ^ k\<close>), \<open>bytes_to_nat\<close> reads it back.
\<close>

fun nat_to_bytes :: "nat \<Rightarrow> nat \<Rightarrow> byte list" where
  "nat_to_bytes 0 n = []"
| "nat_to_bytes (Suc k) n = nat_to_bytes k (n div 256) @ [word_of_nat (n mod 256)]"

definition bytes_to_nat :: "byte list \<Rightarrow> nat" where
  "bytes_to_nat bs = foldl (\<lambda>acc b. acc * 256 + unat b) 0 bs"

text \<open>Modelled from the spec: \<^verbatim>\<open>encode\<close>, from the numbers up to the frame.\<close>

definition put_u64 :: "nat \<Rightarrow> byte list" where
  "put_u64 n = nat_to_bytes 8 n"

definition put_elem :: "64 word \<Rightarrow> byte list" where
  "put_elem x = nat_to_bytes 8 (unat x)"

definition encode_tensor :: "64 word ndarray \<Rightarrow> byte list" where
  "encode_tensor t =
     put_u64 (length (shape t)) @ concat (map put_u64 (shape t)) @ concat (map put_elem (elems t))"

definition payload :: "wire_params \<Rightarrow> byte list" where
  "payload p = put_u64 (length p) @ concat (map encode_tensor p)"

definition encode :: "wire_params \<Rightarrow> byte list" where
  "encode p = put_u64 (length (payload p)) @ payload p"

text \<open>
  Modelled from the spec: \<^verbatim>\<open>decode\<close>. It fails with \<open>MalformedFrameError\<close> when the
  length prefix is not the number of bytes that follow it, when the bytes end before
  the declared arrays do, and when bytes are left after them.
\<close>

definition get_u64 :: "byte list \<Rightarrow> codec_error + nat \<times> byte list" where
  "get_u64 bs =
     (if length bs < 8 then Inl MalformedFrameError
      else Inr (bytes_to_nat (take 8 bs), drop 8 bs))"

fun get_u64s :: "nat \<Rightarrow> byte list \<Rightarrow> codec_error + nat list \<times> byte list" where
  "get_u64s 0 bs = Inr ([], bs)"
| "get_u64s (Suc n) bs =
     (case get_u64 bs of
        Inl e \<Rightarrow> Inl e
      | Inr (d, rest) \<Rightarrow>
          (case get_u64s n rest of
             Inl e \<Rightarrow> Inl e
           | Inr (ds, rest') \<Rightarrow> Inr (d # ds, rest')))"

definition decode_tensor :: "byte list \<Rightarrow> codec_error + 64 word ndarray \<times> byte list" where
  "decode_tensor bs =
     (case get_u64 bs of
        Inl e \<Rightarrow> Inl e
      | Inr (rank, rest) \<Rightarrow>
          (case get_u64s rank rest of
             Inl e \<Rightarrow> Inl e
           | Inr (dims, rest') \<Rightarrow>
               (case get_u64s (prod_list dims) rest' of
                  Inl e \<Rightarrow> Inl e
                | Inr (xs, rest'') \<Rightarrow>
                    Inr (\<lparr>shape = dims, elems = map word_of_nat xs\<rparr>, rest''))))"

fun decode_tensors :: "nat \<Rightarrow> byte list \<Rightarrow> codec_error + wire_params \<times> byte list" where
  "decode_tensors 0 bs = Inr ([], bs)"
| "decode_tensors (Suc n) bs =
     (case decode_tensor bs of
        Inl e \<Rightarrow> Inl e
      | Inr (t, rest) \<Rightarrow>
          (case decode_tensors n rest of
             Inl e \<Rightarrow> Inl e
           | Inr (ts, rest') \<Rightarrow> Inr (t # ts, rest')))"

definition decode :: "byte list \<Rightarrow> codec_error + wire_params" where
  "decode bs =
     (case get_u64 bs of
        Inl e \<Rightarrow> Inl e
      | Inr (len, body) \<Rightarrow>
          if length body \<noteq> len then Inl MalformedFrameError
          else
            (case get_u64 body of
               Inl e \<Rightarrow> Inl e
             | Inr (n, rest) \<Rightarrow>
                 (case decode_tensors n rest of
                    Inl e \<Rightarrow> Inl e
                  | Inr (ts, rest') \<Rightarrow>
                      if rest' = [] then Inr ts else Inl MalformedFrameError)))"

text \<open>
  The parameter sets the frame can hold: arrays with as many elements as their shape
  says, and every number written on 8 bytes below \<open>2 ^ 64\<close>.
\<close>

definition wire_tensor_ok :: "64 word ndarray \<Rightarrow> bool" where
  "wire_tensor_ok t =
     (wf_array t \<and> length (shape t) < 2 ^ 64 \<and> list_all (\<lambda>d. d < 2 ^ 64) (shape t))"

definition wire_ok :: "wire_params \<Rightarrow> bool" where
  "wire_ok p =
     (list_all wire_tensor_ok p \<and> length p < 2 ^ 64 \<and> length (payload p) < 2 ^ 64)"

section \<open>Properties of \<^verbatim>\<open>agg\<close>\<close>

lemma concat_nth_uniform:
  "\<forall>x\<in>set xss. length x = n \<Longrightarrow> j < length xss \<Longrightarrow> k < n \<Longrightarrow>
   concat xss ! (j * n + k) = xss ! j ! k"
proof (induction xss arbitrary: j)
  case Nil
  then show ?case by simp
next
  case (Cons x xs)
  show ?case
  proof (cases j)
    case 0
    with Cons.prems show ?thesis by (simp add: nth_append)
  next
    case (Suc j')
    with Cons.prems have "concat xs ! (j' * n + k) = xs ! j' ! k"
      by (intro Cons.IH) auto
    moreover have "length x = n" using Cons.prems by simp
    ultimately show ?thesis using Suc by (simp add: nth_append)
  qed
qed

lemma column_Inr:
  "\<forall>p\<in>set ps. i < length p \<Longrightarrow> column ps i = Inr (map (\<lambda>p. p ! i) ps)"
  by (induction ps) (simp_all add: py_index_def)


lemma np_mean_stack:
  assumes "ts \<noteq> []" and "\<forall>t\<in>set ts. shape t = shape (hd ts)"
  shows "\<exists>a. np_array ts = Inr a \<and> np_mean_axis0 a = Inr (stack_mean ts)"
proof -
  obtain t rest where ts: "ts = t # rest" using assms(1) by (cases ts) auto
  have "list_all (\<lambda>u. shape u = shape t) rest"
    using assms(2) ts by (simp add: list_all_iff)
  then have "np_array ts = Inr \<lparr>shape = length ts # shape t, elems = concat (map elems ts)\<rparr>"
    by (simp add: np_array_def ts)
  moreover have "np_mean_axis0 \<lparr>shape = length ts # shape t, elems = concat (map elems ts)\<rparr>
      = Inr (stack_mean ts)"
    by (simp add: np_mean_axis0_def stack_mean_def ts)
  ultimately show ?thesis by simp
qed


lemma stack_mean_elementwise:
  assumes "ts \<noteq> []" and "\<forall>t\<in>set ts. shape t = shape (hd ts)" and "\<forall>t\<in>set ts. wf_array t"
  shows "stack_mean ts = elementwise_mean ts"
proof -
  let ?n = "prod_list (shape (hd ts))"
  have len: "\<forall>x\<in>set (map elems ts). length x = ?n"
    using assms(2,3) by (auto simp: wf_array_def)
  have "(\<Sum>j\<leftarrow>[0..<length ts]. concat (map elems ts) ! (j * ?n + k)) = (\<Sum>t\<leftarrow>ts. elems t ! k)"
    if k: "k < ?n" for k
  proof -
    have "map (\<lambda>j. concat (map elems ts) ! (j * ?n + k)) [0..<length ts]
        = map (\<lambda>j. elems (ts ! j) ! k) [0..<length ts]"
      using concat_nth_uniform [OF len _ k] by (intro map_cong) auto
    also have "\<dots> = map (\<lambda>t. elems t ! k) ts"
      by (intro nth_equalityI) auto
    finally show ?thesis by simp
  qed
  then show ?thesis
    by (simp add: stack_mean_def elementwise_mean_def)
qed

lemma agrees_atD:
  "agrees_at sets i \<Longrightarrow> p \<in> set sets \<Longrightarrow> i < length p \<and> shape (p ! i) = shape (hd sets ! i)"
  by (simp add: agrees_at_def list_all_iff)

lemma column_one_shape:
  assumes "sets \<noteq> []" and "agrees_at sets i"
  shows "\<forall>t\<in>set (map (\<lambda>p. p ! i) sets). shape t = shape (hd (map (\<lambda>p. p ! i) sets))"
proof
  fix t assume "t \<in> set (map (\<lambda>p. p ! i) sets)"
  then obtain p where p: "p \<in> set sets" "t = p ! i" by auto
  have "hd (map (\<lambda>p. p ! i) sets) = hd sets ! i"
    using assms(1) by (simp add: hd_map)
  moreover have "shape t = shape (hd sets ! i)"
    using agrees_atD [OF assms(2) p(1)] p(2) by simp
  ultimately show "shape t = shape (hd (map (\<lambda>p. p ! i) sets))" by simp
qed

lemma agg_step_ok:
  assumes "sets \<noteq> []" and "agrees_at sets i"
  shows "\<exists>a. column sets i = Inr (map (\<lambda>p. p ! i) sets)
           \<and> np_array (map (\<lambda>p. p ! i) sets) = Inr a
           \<and> np_mean_axis0 a = Inr (stack_mean (map (\<lambda>p. p ! i) sets))"
proof -
  have "\<forall>p\<in>set sets. i < length p"
    using agrees_atD [OF assms(2)] by blast
  then have col: "column sets i = Inr (map (\<lambda>p. p ! i) sets)"
    by (rule column_Inr)
  have "map (\<lambda>p. p ! i) sets \<noteq> []" using assms(1) by simp
  from np_mean_stack [OF this column_one_shape [OF assms]] col show ?thesis by simp
qed


lemma agg_loop_ok:
  assumes "sets \<noteq> []" and "\<forall>i\<in>set is. agrees_at sets i"
  shows "agg_loop sets is acc = Inr (acc @ map (\<lambda>i. stack_mean (map (\<lambda>p. p ! i) sets)) is)"
  using assms(2)
proof (induction "is" arbitrary: acc)
  case Nil
  then show ?case by simp
next
  case (Cons i "is")
  from agg_step_ok [OF assms(1), of i] Cons.prems obtain a where
    "column sets i = Inr (map (\<lambda>p. p ! i) sets)"
    "np_array (map (\<lambda>p. p ! i) sets) = Inr a"
    "np_mean_axis0 a = Inr (stack_mean (map (\<lambda>p. p ! i) sets))"
    by auto
  moreover have "agg_loop sets is (acc @ [stack_mean (map (\<lambda>p. p ! i) sets)])
     = Inr ((acc @ [stack_mean (map (\<lambda>p. p ! i) sets)]) @ map (\<lambda>i. stack_mean (map (\<lambda>p. p ! i) sets)) is)"
    using Cons.prems by (intro Cons.IH) simp
  ultimately show ?case by simp
qed


lemma agg_ok:
  assumes "sets \<noteq> []" and "\<forall>i<length (hd sets). agrees_at sets i"
  shows "agg sets = Inr (map (\<lambda>i. stack_mean (map (\<lambda>p. p ! i) sets)) [0..<length (hd sets)])"
proof -
  have "py_index sets 0 = Inr (hd sets)"
    using assms(1) by (cases sets) (simp_all add: py_index_def)
  moreover have "\<forall>i\<in>set [0..<length (hd sets)]. agrees_at sets i" using assms(2) by simp
  ultimately show ?thesis
    using agg_loop_ok [OF assms(1), of "[0..<length (hd sets)]" "[]"] by (simp add: agg_def)
qed


lemma same_signature_agrees:
  assumes "\<forall>p\<in>set sets. signature p = signature (hd sets)" and "i < length (hd sets)"
  shows "agrees_at sets i"
proof -
  have "i < length p \<and> shape (p ! i) = shape (hd sets ! i)" if "p \<in> set sets" for p
  proof -
    from that assms(1) have eq: "map shape p = map shape (hd sets)" by (simp add: signature_def)
    then have len: "length p = length (hd sets)" by (rule map_eq_imp_length_eq)
    have "map shape p ! i = map shape (hd sets) ! i" using eq by simp
    then have "shape (p ! i) = shape (hd sets ! i)" using len assms(2) by simp
    then show ?thesis using len assms(2) by simp
  qed
  then show ?thesis by (simp add: agrees_at_def list_all_iff)
qed

lemma agg_positionwise_mean:
  assumes "sets \<noteq> []" and "\<forall>p\<in>set sets. wf_params p"
    and "\<forall>p\<in>set sets. signature p = signature (hd sets)"
  shows "agg sets = Inr (positionwise_mean sets)"
proof -
  have ag: "\<forall>i<length (hd sets). agrees_at sets i"
    using same_signature_agrees [OF assms(3)] by simp
  have "stack_mean (map (\<lambda>p. p ! i) sets) = elementwise_mean (map (\<lambda>p. p ! i) sets)"
    if i: "i < length (hd sets)" for i
  proof (rule stack_mean_elementwise)
    show "map (\<lambda>p. p ! i) sets \<noteq> []" using assms(1) by simp
    from ag i have a: "agrees_at sets i" by blast
    show "\<forall>t\<in>set (map (\<lambda>p. p ! i) sets). shape t = shape (hd (map (\<lambda>p. p ! i) sets))"
      by (rule column_one_shape [OF assms(1) a])
    show "\<forall>t\<in>set (map (\<lambda>p. p ! i) sets). wf_array t"
    proof
      fix t assume "t \<in> set (map (\<lambda>p. p ! i) sets)"
      then obtain p where p: "p \<in> set sets" "t = p ! i" by auto
      from agrees_atD [OF a p(1)] have "i < length p" by simp
      moreover have "list_all wf_array p" using assms(2) p(1) by (simp add: wf_params_def)
      ultimately show "wf_array t" using p(2) by (simp add: list_all_length)
    qed
  qed
  then have "map (\<lambda>i. stack_mean (map (\<lambda>p. p ! i) sets)) [0..<length (hd sets)]
      = positionwise_mean sets"
    by (simp add: positionwise_mean_def)
  with agg_ok [OF assms(1) ag] show ?thesis by simp
qed

subsection \<open>One set\<close>

lemma elementwise_mean_single:
  assumes "wf_array t"
  shows "elementwise_mean [t] = t"
proof -
  have "map (\<lambda>k. elems t ! k) [0..<length (elems t)] = elems t"
    by (rule map_nth)
  then have "map (\<lambda>k. elems t ! k) [0..<prod_list (shape t)] = elems t"
    using assms by (simp add: wf_array_def)
  then show ?thesis by (simp add: elementwise_mean_def)
qed

lemma positionwise_mean_single:
  assumes "wf_params p"
  shows "positionwise_mean [p] = p"
proof (rule nth_equalityI)
  show "length (positionwise_mean [p]) = length p" by (simp add: positionwise_mean_def)
next
  fix i assume "i < length (positionwise_mean [p])"
  then have i: "i < length p" by (simp add: positionwise_mean_def)
  then have "wf_array (p ! i)" using assms by (simp add: wf_params_def list_all_length)
  then show "positionwise_mean [p] ! i = p ! i"
    using i by (simp add: positionwise_mean_def elementwise_mean_single)
qed

text \<open>
  Claim C9. Aggregating the list of one parameter set returns that set unchanged:
  \<^verbatim>\<open>agg([p])\<close> is \<open>p\<close>, for every parameter set \<open>p\<close> of arrays (each holding as many
  elements as its shape says).
\<close>

theorem agg_singleton:
  assumes "wf_params p"
  shows "agg [p] = Inr p"
proof -
  have "agg [p] = Inr (positionwise_mean [p])"
    using assms by (intro agg_positionwise_mean) simp_all
  then show ?thesis using assms by (simp add: positionwise_mean_single)
qed

theorem agg_singleton_witness:
  "wf_params [\<lparr>shape = [2, 2], elems = [1, 2, 3, 4]\<rparr>, \<lparr>shape = [], elems = [5]\<rparr>]
   \<and> agg [[\<lparr>shape = [2, 2], elems = [1, 2, 3, 4]\<rparr>, \<lparr>shape = [], elems = [5]\<rparr>]]
       = Inr [\<lparr>shape = [2, 2], elems = [1, 2, 3, 4]\<rparr>, \<lparr>shape = [], elems = [5]\<rparr>]"
proof -
  have h: "wf_params [\<lparr>shape = [2, 2], elems = [1, 2, 3, 4]\<rparr>, \<lparr>shape = [], elems = [5]\<rparr>]"
    by (simp add: wf_params_def wf_array_def)
  from agg_singleton [OF h] h show ?thesis by simp
qed

subsection \<open>The mean of sets of one signature\<close>

lemma positionwise_mean_nth:
  assumes "i < length (hd sets)"
  shows "positionwise_mean sets ! i = elementwise_mean (map (\<lambda>p. p ! i) sets)"
  using assms by (simp add: positionwise_mean_def)



subsection \<open>Order of the sets\<close>







subsection \<open>Sets that disagree\<close>





section \<open>Properties of the client\<close>

lemma load_state_dict_ok:
  "fst (load_state_dict cs vs) =
     (length cs \<le> length vs \<and> map shape (take (length cs) vs) = map shape cs)"
  by (induction cs vs rule: load_state_dict.induct) (auto split: prod.splits)

lemma load_state_dict_take:
  "fst (load_state_dict cs vs) \<Longrightarrow> snd (load_state_dict cs vs) = take (length cs) vs"
  by (induction cs vs rule: load_state_dict.induct) (auto split: prod.splits if_splits)

lemma set_parameters_fits:
  assumes "fits_model parameters w"
  shows "set_parameters parameters w = (Inr (), w\<lparr>net := take (length (net w)) parameters\<rparr>)"
proof -
  have ok: "fst (load_state_dict (net w) parameters)"
    using assms by (simp add: load_state_dict_ok fits_model_def signature_def)
  then have "snd (load_state_dict (net w) parameters) = take (length (net w)) parameters"
    by (rule load_state_dict_take)
  with ok have "load_state_dict (net w) parameters = (True, take (length (net w)) parameters)"
    by (cases "load_state_dict (net w) parameters") simp
  then show ?thesis by (simp add: set_parameters_def)
qed

lemma set_parameters_not_fits:
  assumes "\<not> fits_model parameters w"
  shows "fst (set_parameters parameters w) = Inl RuntimeError
       \<and> events (snd (set_parameters parameters w)) = events w"
proof -
  have "\<not> fst (load_state_dict (net w) parameters)"
    using assms by (simp add: load_state_dict_ok fits_model_def signature_def)
  then obtain new where "load_state_dict (net w) parameters = (False, new)"
    by (cases "load_state_dict (net w) parameters") simp
  then show ?thesis by (simp add: set_parameters_def)
qed

lemma train_one_epoch:
  "train E 1 w = w\<lparr>net := snd (train_epoch E ([], net w)), events := events w @ [TrainEpoch]\<rparr>"
  by (simp add: train_def split: prod.splits)

lemma fit_fits:
  assumes "fits_model parameters w"
  shows "fit E self parameters config w =
     (Inl TypeError,
      w\<lparr>net := snd (train_epoch E ([], take (length (net w)) parameters)),
        events := events w @ [TrainEpoch, Listen (num_clients self)]\<rparr>)"
  by (simp add: fit_def set_parameters_fits [OF assms] train_one_epoch listen_def len_int_def)


lemma example_fits: "fits_model example_params example_world"
  by (simp add: fits_model_def example_params_def example_world_def signature_def)

lemma example_fit:
  "fit example_env \<lparr>num_clients = n, port = 9000\<rparr> example_params config example_world =
     (Inl TypeError,
      \<lparr>net = [\<lparr>shape = [2], elems = [2, 3]\<rparr>], waiting = 0, events = [TrainEpoch, Listen n]\<rparr>)"
  by (simp add: fit_fits [OF example_fits])
     (simp add: example_env_def example_params_def example_world_def)



text \<open>
  Claim C1, as the code has it. For a leaf node (\<^verbatim>\<open>num_clients = 0\<close>), a call of \<^verbatim>\<open>fit\<close>
  with parameters \<open>P0\<close> that the model accepts sets them on the model and trains for
  one pass, so that the model holds the trainer's output on \<open>P0\<close>; then it calls
  \<^verbatim>\<open>listen(0)\<close> on the node's socket, the call not being guarded by the number of
  children. No connection is accepted during the call.
\<close>

theorem fit_leaf:
  assumes "num_clients self = 0" and "fits_model P0 w"
  shows "net (snd (fit E self P0 config w)) = snd (train_epoch E ([], take (length (net w)) P0))
       \<and> events (snd (fit E self P0 config w)) = events w @ [TrainEpoch, Listen 0]
       \<and> Accept \<notin> set (drop (length (events w)) (events (snd (fit E self P0 config w))))"
  using assms by (simp add: fit_fits)

theorem fit_leaf_witness:
  "num_clients \<lparr>num_clients = 0, port = 9000\<rparr> = 0
   \<and> fits_model example_params example_world
   \<and> net (snd (fit example_env \<lparr>num_clients = 0, port = 9000\<rparr> example_params
                  [(''epochs'', 1)] example_world))
       = [\<lparr>shape = [2], elems = [2, 3]\<rparr>]
   \<and> events (snd (fit example_env \<lparr>num_clients = 0, port = 9000\<rparr> example_params
                  [(''epochs'', 1)] example_world))
       = [TrainEpoch, Listen 0]"
proof -
  have h: "num_clients \<lparr>num_clients = 0, port = 9000\<rparr> = 0" by simp
  from fit_leaf [OF h example_fits, of example_env "[(''epochs'', 1)]"] h example_fits
  show ?thesis
    by (simp add: example_env_def example_params_def example_world_def)
qed

text \<open>
  The claim as stated fails on a leaf node: the call returns no triple, it raises,
  and the socket has been put to listening.
\<close>

theorem fit_leaf_counterexample:
  "fst (fit example_env \<lparr>num_clients = 0, port = 9000\<rparr> example_params [(''epochs'', 1)]
          example_world) = Inl TypeError
   \<and> events (snd (fit example_env \<lparr>num_clients = 0, port = 9000\<rparr> example_params
                     [(''epochs'', 1)] example_world)) = [TrainEpoch, Listen 0]"
  by (simp add: example_fit)

text \<open>
  Claim C6, as the code has it. After the received parameters are set on the model,
  local training runs for exactly one pass over the training data, whatever the
  configuration of the round says: \<^verbatim>\<open>fit\<close> passes \<^verbatim>\<open>epochs=1\<close> and does not read
  \<^verbatim>\<open>config\<close>.
\<close>

theorem fit_trains_one_epoch:
  assumes "fits_model parameters w"
  shows "length (filter (\<lambda>e. e = TrainEpoch) (events (snd (fit E self parameters config w))))
           = length (filter (\<lambda>e. e = TrainEpoch) (events w)) + 1
       \<and> net (snd (fit E self parameters config w))
           = snd (train_epoch E ([], take (length (net w)) parameters))"
  using assms by (simp add: fit_fits)

theorem fit_trains_one_epoch_witness:
  "fits_model example_params example_world
   \<and> length (filter (\<lambda>e. e = TrainEpoch)
        (events (snd (fit example_env \<lparr>num_clients = 2, port = 9000\<rparr> example_params
                        [(''epochs'', 3)] example_world)))) = 1
   \<and> net (snd (fit example_env \<lparr>num_clients = 2, port = 9000\<rparr> example_params
                  [(''epochs'', 3)] example_world))
       = [\<lparr>shape = [2], elems = [2, 3]\<rparr>]"
proof -
  from fit_trains_one_epoch [OF example_fits, of example_env
      "\<lparr>num_clients = 2, port = 9000\<rparr>" "[(''epochs'', 3)]"] example_fits
  show ?thesis
    by (simp add: example_env_def example_params_def example_world_def)
qed

text \<open>
  The claim as stated fails: with a configuration of three epochs, one pass is run,
  and the model does not hold what three passes give.
\<close>

theorem fit_trains_one_epoch_counterexample:
  "map_of [(''epochs'', 3::int)] ''epochs'' = Some 3
   \<and> length (filter (\<lambda>e. e = TrainEpoch)
        (events (snd (fit example_env \<lparr>num_clients = 2, port = 9000\<rparr> example_params
                        [(''epochs'', 3)] example_world)))) = 1
   \<and> net (snd (fit example_env \<lparr>num_clients = 2, port = 9000\<rparr> example_params
                  [(''epochs'', 3)] example_world)) = [\<lparr>shape = [2], elems = [2, 3]\<rparr>]
   \<and> net (train example_env 3 (snd (set_parameters example_params example_world)))
       = [\<lparr>shape = [2], elems = [4, 5]\<rparr>]"
proof -
  have "net (train example_env 3 (snd (set_parameters example_params example_world)))
       = [\<lparr>shape = [2], elems = [4, 5]\<rparr>]"
    by code_simp
  then show ?thesis by (simp add: example_fit)
qed

lemma fold_losses:
  "fold (\<lambda>(l, c) (loss, correct). (loss + l, correct + c)) outs (a, b)
     = (a + sum_list (map fst outs), b + sum_list (map snd outs))"
  by (induction outs arbitrary: a b) (auto simp: add.assoc)

lemma test_result:
  "test E w =
     (if test_len E = 0 then Inl ZeroDivisionError
      else Inr (sum_list (map fst (test_outcomes E (net w))),
                real (sum_list (map snd (test_outcomes E (net w)))) / real (test_len E)),
      w\<lparr>events := events w @ [TestRun]\<rparr>)"
  by (simp add: test_def fold_losses)

lemma evaluate_fits:
  assumes "fits_model parameters w"
  shows "evaluate E self parameters config w =
     (if test_len E = 0 then Inl ZeroDivisionError
      else Inr (sum_list (map fst (test_outcomes E (take (length (net w)) parameters))),
                test_len E,
                [(''accuracy'',
                  real (sum_list (map snd (test_outcomes E (take (length (net w)) parameters))))
                    / real (test_len E))]),
      w\<lparr>net := take (length (net w)) parameters, events := events w @ [TestRun]\<rparr>)"
  by (simp add: evaluate_def set_parameters_fits [OF assms] test_result)

lemma evaluate_not_fits:
  assumes "\<not> fits_model parameters w"
  shows "fst (evaluate E self parameters config w) = Inl RuntimeError
       \<and> events (snd (evaluate E self parameters config w)) = events w"
proof -
  from set_parameters_not_fits [OF assms]
  obtain w1 where "set_parameters parameters w = (Inl RuntimeError, w1)" "events w1 = events w"
    by (cases "set_parameters parameters w") simp
  then show ?thesis by (simp add: evaluate_def)
qed

text \<open>
  Claim C7. A call of \<^verbatim>\<open>evaluate\<close> with parameters that the model accepts (and a test
  set that is not empty) sets them on the model, runs \<^verbatim>\<open>test\<close>, and returns the loss,
  the size of the test set and the accuracy under the key \<^verbatim>\<open>accuracy\<close>. Whatever the
  parameters, the call adds to the log at most the test run: it never calls
  \<^verbatim>\<open>listen\<close> or \<^verbatim>\<open>accept\<close> and never aggregates.
\<close>

theorem evaluate_returns:
  "(events (snd (evaluate E self parameters config w)) = events w
    \<or> events (snd (evaluate E self parameters config w)) = events w @ [TestRun])
   \<and> (fits_model parameters w \<and> test_len E \<noteq> 0 \<longrightarrow>
        net (snd (evaluate E self parameters config w)) = take (length (net w)) parameters
      \<and> events (snd (evaluate E self parameters config w)) = events w @ [TestRun]
      \<and> fst (evaluate E self parameters config w)
          = Inr (sum_list (map fst (test_outcomes E (take (length (net w)) parameters))),
                 test_len E,
                 [(''accuracy'',
                   real (sum_list (map snd (test_outcomes E (take (length (net w)) parameters))))
                     / real (test_len E))]))"
proof (cases "fits_model parameters w")
  case True
  then show ?thesis by (simp add: evaluate_fits)
next
  case False
  then show ?thesis by (simp add: evaluate_not_fits)
qed

theorem evaluate_returns_witness:
  "fits_model example_params example_world \<and> test_len example_env \<noteq> 0
   \<and> fst (evaluate example_env \<lparr>num_clients = 2, port = 9000\<rparr> example_params []
             example_world) = Inr (3 / 4, 10, [(''accuracy'', 7 / 10)])
   \<and> net (snd (evaluate example_env \<lparr>num_clients = 2, port = 9000\<rparr> example_params []
                  example_world)) = [\<lparr>shape = [2], elems = [1, 2]\<rparr>]
   \<and> events (snd (evaluate example_env \<lparr>num_clients = 2, port = 9000\<rparr> example_params []
                     example_world)) = [TestRun]"
proof -
  have t: "test_len example_env \<noteq> 0" by (simp add: example_env_def)
  from evaluate_returns [of example_env "\<lparr>num_clients = 2, port = 9000\<rparr>" example_params "[]"
      example_world] example_fits t
  show ?thesis
    by (simp add: example_env_def example_params_def example_world_def)
qed



section \<open>Properties of the transport codec\<close>

lemma length_nat_to_bytes: "length (nat_to_bytes k n) = k"
  by (induction k arbitrary: n) simp_all

lemma bytes_to_nat_snoc: "bytes_to_nat (bs @ [b]) = bytes_to_nat bs * 256 + unat b"
  by (simp add: bytes_to_nat_def)

lemma unat_low_byte: "unat (word_of_nat (n mod 256) :: byte) = n mod 256"
  by (simp add: unat_of_nat)

lemma bytes_to_nat_to_bytes:
  "n < 256 ^ k \<Longrightarrow> bytes_to_nat (nat_to_bytes k n) = n"
proof (induction k arbitrary: n)
  case 0
  then show ?case by (simp add: bytes_to_nat_def)
next
  case (Suc k)
  from Suc.prems have "n div 256 < 256 ^ k"
    by (simp add: less_mult_imp_div_less mult.commute)
  then have "bytes_to_nat (nat_to_bytes k (n div 256)) = n div 256" by (rule Suc.IH)
  then show ?case by (simp add: bytes_to_nat_snoc unat_low_byte)
qed

lemma get_put_u64:
  assumes "n < 2 ^ 64"
  shows "get_u64 (put_u64 n @ rest) = Inr (n, rest)"
proof -
  have "(2::nat) ^ 64 = 256 ^ 8" by simp
  with assms have "n < 256 ^ 8" by (simp only:)
  then have "bytes_to_nat (nat_to_bytes 8 n) = n" by (rule bytes_to_nat_to_bytes)
  then show ?thesis
    by (simp add: get_u64_def put_u64_def length_nat_to_bytes)
qed

lemma get_put_u64s:
  assumes "list_all (\<lambda>d. d < 2 ^ 64) ds"
  shows "get_u64s (length ds) (concat (map put_u64 ds) @ rest) = Inr (ds, rest)"
  using assms by (induction ds) (simp_all add: get_put_u64)

lemma get_put_elems:
  "get_u64s (length xs) (concat (map put_elem xs) @ rest) = Inr (map unat xs, rest)"
proof (induction xs)
  case Nil
  then show ?case by simp
next
  case (Cons x xs)
  have "unat x < 2 ^ 64" using unsigned_less [of x] by simp
  then have "get_u64 (put_u64 (unat x) @ (concat (map put_elem xs) @ rest))
      = Inr (unat x, concat (map put_elem xs) @ rest)"
    by (rule get_put_u64)
  moreover have "put_elem x = put_u64 (unat x)" by (simp add: put_elem_def put_u64_def)
  ultimately show ?case using Cons.IH by simp
qed

lemma decode_encode_tensor:
  assumes "wire_tensor_ok t"
  shows "decode_tensor (encode_tensor t @ rest) = Inr (t, rest)"
proof -
  from assms have rank: "length (shape t) < 2 ^ 64"
    and dims: "list_all (\<lambda>d. d < 2 ^ 64) (shape t)"
    and size: "prod_list (shape t) = length (elems t)"
    by (simp_all add: wire_tensor_ok_def wf_array_def)
  let ?r2 = "concat (map put_elem (elems t)) @ rest"
  let ?r1 = "concat (map put_u64 (shape t)) @ ?r2"
  have 1: "get_u64 (put_u64 (length (shape t)) @ ?r1) = Inr (length (shape t), ?r1)"
    using rank by (rule get_put_u64)
  have 2: "get_u64s (length (shape t)) ?r1 = Inr (shape t, ?r2)"
    using dims by (rule get_put_u64s)
  have 3: "get_u64s (prod_list (shape t)) ?r2 = Inr (map unat (elems t), rest)"
    unfolding size by (rule get_put_elems)
  have 4: "map word_of_nat (map unat (elems t)) = elems t"
    by (simp add: comp_def)
  have "encode_tensor t @ rest = put_u64 (length (shape t)) @ ?r1"
    by (simp add: encode_tensor_def)
  then show ?thesis
    by (simp only: decode_tensor_def 1 2 3 4 sum.case prod.case ndarray.surjective [symmetric] unit.exhaust)
       simp
qed

lemma decode_encode_tensors:
  assumes "list_all wire_tensor_ok ts"
  shows "decode_tensors (length ts) (concat (map encode_tensor ts) @ rest) = Inr (ts, rest)"
  using assms by (induction ts) (simp_all add: decode_encode_tensor)

lemma unat_byte_less: "unat (b :: byte) < 256"
  using unsigned_less [of b] by simp

lemma nat_to_bytes_to_nat:
  "length bs = k \<Longrightarrow> nat_to_bytes k (bytes_to_nat bs) = bs"
proof (induction bs arbitrary: k rule: rev_induct)
  case Nil
  then show ?case by simp
next
  case (snoc b bs)
  then obtain k' where k: "k = Suc k'" and len: "length bs = k'" by (cases k) simp_all
  have d: "(bytes_to_nat bs * 256 + unat b) div 256 = bytes_to_nat bs"
    using unat_byte_less [of b] by simp
  have m: "(bytes_to_nat bs * 256 + unat b) mod 256 = unat b"
    using unat_byte_less [of b] by simp
  have m': "unat b mod 256 = unat b"
    using unat_byte_less [of b] by simp
  from len have "nat_to_bytes k' (bytes_to_nat bs) = bs" by (rule snoc.IH)
  then show ?case by (simp add: k bytes_to_nat_snoc d m m')
qed

lemma bytes_to_nat_less: "bytes_to_nat bs < 256 ^ length bs"
proof (induction bs rule: rev_induct)
  case Nil
  then show ?case by (simp add: bytes_to_nat_def)
next
  case (snoc b bs)
  have "bytes_to_nat bs * 256 + unat b < (bytes_to_nat bs + 1) * 256"
    using unat_byte_less [of b] by simp
  also have "\<dots> \<le> 256 ^ length bs * 256"
    using snoc.IH by (intro mult_le_mono1) simp
  finally show ?case by (simp add: bytes_to_nat_snoc mult.commute)
qed

lemma get_u64_Inr:
  assumes "get_u64 bs = Inr (n, rest)"
  shows "bs = put_u64 n @ rest \<and> n < 2 ^ 64"
proof -
  from assms have len: "8 \<le> length bs" and n: "n = bytes_to_nat (take 8 bs)"
    and rest: "rest = drop 8 bs"
    by (simp_all add: get_u64_def split: if_splits)
  have l8: "length (take 8 bs) = 8" using len by simp
  then have "nat_to_bytes 8 (bytes_to_nat (take 8 bs)) = take 8 bs"
    by (rule nat_to_bytes_to_nat)
  then have "put_u64 n @ rest = take 8 bs @ drop 8 bs"
    by (simp only: put_u64_def n rest)
  moreover have "bytes_to_nat (take 8 bs) < 256 ^ 8"
    using bytes_to_nat_less [of "take 8 bs"] by (simp only: l8)
  ultimately show ?thesis by (simp add: n)
qed

lemma get_u64s_Inr:
  "get_u64s k bs = Inr (ds, rest) \<Longrightarrow>
   bs = concat (map put_u64 ds) @ rest \<and> length ds = k \<and> list_all (\<lambda>d. d < 2 ^ 64) ds"
proof (induction k arbitrary: bs ds)
  case 0
  then show ?case by simp
next
  case (Suc k)
  from Suc.prems obtain d r1 ds' where
    1: "get_u64 bs = Inr (d, r1)" and 2: "get_u64s k r1 = Inr (ds', rest)" and 3: "ds = d # ds'"
    by (auto split: sum.splits prod.splits)
  from get_u64_Inr [OF 1] Suc.IH [OF 2] 3 show ?case by simp
qed

lemma put_elem_word_of_nat:
  assumes "x < 2 ^ 64"
  shows "put_elem (word_of_nat x) = put_u64 x"
proof -
  have "unat (word_of_nat x :: 64 word) = x"
    using assms by (simp add: unat_of_nat)
  then show ?thesis by (simp add: put_elem_def put_u64_def)
qed

lemma put_elems_word_of_nat:
  "list_all (\<lambda>d. d < 2 ^ 64) xs \<Longrightarrow>
   concat (map put_elem (map word_of_nat xs)) = concat (map put_u64 xs)"
  by (induction xs) (simp_all add: put_elem_word_of_nat)

lemma decode_tensor_Inr:
  assumes "decode_tensor bs = Inr (t, rest)"
  shows "bs = encode_tensor t @ rest \<and> wire_tensor_ok t"
proof -
  from assms obtain rank r1 dims r2 xs where
    1: "get_u64 bs = Inr (rank, r1)" and 2: "get_u64s rank r1 = Inr (dims, r2)"
    and 3: "get_u64s (prod_list dims) r2 = Inr (xs, rest)"
    and t: "t = \<lparr>shape = dims, elems = map word_of_nat xs\<rparr>"
    by (auto simp: decode_tensor_def split: sum.splits prod.splits)
  from get_u64_Inr [OF 1] have a: "bs = put_u64 rank @ r1" "rank < 2 ^ 64" by simp_all
  from get_u64s_Inr [OF 2] have b: "r1 = concat (map put_u64 dims) @ r2" "length dims = rank"
    "list_all (\<lambda>d. d < 2 ^ 64) dims" by simp_all
  from get_u64s_Inr [OF 3] have c: "r2 = concat (map put_u64 xs) @ rest"
    "length xs = prod_list dims" "list_all (\<lambda>d. d < 2 ^ 64) xs" by simp_all
  have "bs = encode_tensor t @ rest"
    using a(1) b(1,2) c(1) put_elems_word_of_nat [OF c(3)]
    by (simp add: encode_tensor_def t)
  moreover have "wire_tensor_ok t"
    using a(2) b(2,3) c(2) by (simp add: wire_tensor_ok_def wf_array_def t)
  ultimately show ?thesis by simp
qed

lemma decode_tensors_Inr:
  "decode_tensors k bs = Inr (ts, rest) \<Longrightarrow>
   bs = concat (map encode_tensor ts) @ rest \<and> length ts = k \<and> list_all wire_tensor_ok ts"
proof (induction k arbitrary: bs ts)
  case 0
  then show ?case by simp
next
  case (Suc k)
  from Suc.prems obtain t r1 ts' where
    1: "decode_tensor bs = Inr (t, r1)" and 2: "decode_tensors k r1 = Inr (ts', rest)"
    and 3: "ts = t # ts'"
    by (auto split: sum.splits prod.splits)
  from decode_tensor_Inr [OF 1] Suc.IH [OF 2] 3 show ?case by simp
qed

lemma decode_Inr:
  assumes "decode bs = Inr p"
  shows "encode p = bs \<and> wire_ok p"
proof -
  from assms obtain len body n r1 where
    1: "get_u64 bs = Inr (len, body)" and l: "length body = len"
    and 2: "get_u64 body = Inr (n, r1)" and 3: "decode_tensors n r1 = Inr (p, [])"
    by (auto simp: decode_def split: sum.splits prod.splits if_splits)
  from get_u64_Inr [OF 1] have a: "bs = put_u64 len @ body" "len < 2 ^ 64" by simp_all
  from get_u64_Inr [OF 2] have b: "body = put_u64 n @ r1" "n < 2 ^ 64" by simp_all
  from decode_tensors_Inr [OF 3] have c: "r1 = concat (map encode_tensor p)" "length p = n"
    "list_all wire_tensor_ok p" by simp_all
  have pl: "payload p = body" using b(1) c(1,2) by (simp add: payload_def)
  then have "encode p = bs" using a(1) l by (simp add: encode_def)
  moreover have "wire_ok p" using pl l a(2) b(2) c(2,3) by (simp add: wire_ok_def)
  ultimately show ?thesis by simp
qed

lemma decode_encode_ok:
  assumes "wire_ok p"
  shows "decode (encode p) = Inr p"
proof -
  from assms have ts: "list_all wire_tensor_ok p"
    and n: "length p < 2 ^ 64"
    and len: "length (payload p) < 2 ^ 64"
    by (simp_all add: wire_ok_def)
  have 1: "get_u64 (put_u64 (length (payload p)) @ payload p) = Inr (length (payload p), payload p)"
    using len by (rule get_put_u64)
  have 2: "get_u64 (put_u64 (length p) @ concat (map encode_tensor p))
      = Inr (length p, concat (map encode_tensor p))"
    using n by (rule get_put_u64)
  have 3: "decode_tensors (length p) (concat (map encode_tensor p)) = Inr (p, [])"
    using decode_encode_tensors [OF ts, of "[]"] by simp
  have "decode (put_u64 (length (payload p)) @ payload p) = Inr p"
    unfolding decode_def 1 by (simp add: payload_def 2 3)
  then show ?thesis by (simp only: encode_def)
qed

lemma encode_prefix: "take 8 (encode p) = put_u64 (length (encode p) - 8)"
  by (simp add: encode_def put_u64_def length_nat_to_bytes)

text \<open>
  Claim C2. For every parameter set \<open>p\<close> that the frame can hold, decoding the encoding
  of \<open>p\<close> yields \<open>p\<close> back: \<^verbatim>\<open>decode(encode(p)) == p\<close>. The decoder is the exact
  inverse: the frame of \<open>p\<close> is the only byte string it decodes to \<open>p\<close>. The frame is
  length-prefixed: its first 8 bytes are the number of the bytes that follow them.
\<close>

theorem decode_encode_roundtrip:
  assumes "wire_ok p"
  shows "decode (encode p) = Inr p
       \<and> (\<forall>bs. decode bs = Inr p \<longrightarrow> bs = encode p)
       \<and> take 8 (encode p) = put_u64 (length (encode p) - 8)"
proof (intro conjI allI impI)
  show "decode (encode p) = Inr p" using assms by (rule decode_encode_ok)
  show "take 8 (encode p) = put_u64 (length (encode p) - 8)" by (rule encode_prefix)
next
  fix bs assume "decode bs = Inr p"
  from decode_Inr [OF this] show "bs = encode p" by simp
qed

theorem decode_encode_roundtrip_witness:
  "wire_ok [\<lparr>shape = [2], elems = [258, 3]\<rparr>, \<lparr>shape = [], elems = [77]\<rparr>]
   \<and> decode (encode [\<lparr>shape = [2], elems = [258, 3]\<rparr>, \<lparr>shape = [], elems = [77]\<rparr>])
       = Inr [\<lparr>shape = [2], elems = [258, 3]\<rparr>, \<lparr>shape = [], elems = [77]\<rparr>]
   \<and> length (encode [\<lparr>shape = [2], elems = [258, 3]\<rparr>, \<lparr>shape = [], elems = [77]\<rparr>]) = 64"
proof -
  have len: "length (payload [\<lparr>shape = [2], elems = [258, 3]\<rparr>, \<lparr>shape = [], elems = [77]\<rparr>]) = 56"
    by (simp add: payload_def encode_tensor_def put_u64_def put_elem_def length_nat_to_bytes)
  have h: "wire_ok [\<lparr>shape = [2], elems = [258, 3]\<rparr>, \<lparr>shape = [], elems = [77]\<rparr>]"
    unfolding wire_ok_def len by (simp add: wire_tensor_ok_def wf_array_def)
  have l: "length (encode [\<lparr>shape = [2], elems = [258, 3]\<rparr>, \<lparr>shape = [], elems = [77]\<rparr>]) = 64"
    unfolding encode_def by (simp add: len put_u64_def length_nat_to_bytes)
  from decode_encode_roundtrip [OF h] have
    "decode (encode [\<lparr>shape = [2], elems = [258, 3]\<rparr>, \<lparr>shape = [], elems = [77]\<rparr>])
       = Inr [\<lparr>shape = [2], elems = [258, 3]\<rparr>, \<lparr>shape = [], elems = [77]\<rparr>]"
    by (rule conjunct1)
  with h l show ?thesis by (simp only: simp_thms)
qed

end
